theory Spec2Isabelle
  imports Complex_Main "HOL-Library.Word"
begin

section \<open>Data model of the \<open>useLiveAPI\<close> hook\<close>

text \<open>
  The hook keeps five pieces of React state (\<open>isConnected\<close>, \<open>isAITalking\<close>,
  \<open>isUserTalking\<close>, \<open>messages\<close>, \<open>error\<close>) and eight refs. They are the first
  thirteen fields of the record \<open>state\<close> below, under the names of the source.
  The remaining fields record what the hook did to the platform: which worklet
  nodes carry the capture handler on their port, which timers are pending, what
  was transmitted, which sessions, audio contexts and streams were closed, and
  which playback segments were started.

  Objects of the platform (audio contexts, worklet nodes, media streams, sessions,
  timers) are natural numbers; a ref that is \<open>null\<close> is \<open>None\<close>, and every object
  and timer handle is truthy. JavaScript numbers are idealised as reals. Every
  callback is one atomic transition, as on the single event loop of the source,
  and reads the React state of the latest render; \<open>connect\<close> is split at its
  \<open>await\<close>s.
\<close>

datatype Role = RoleUser | RoleModel

record Message =
  msg_role :: Role
  msg_text :: string

text \<open>
  The base64 text in \<open>serverContent.modelTurn.parts[0].inlineData.data\<close>:
  missing or the empty string (falsy), a non-empty text that \<open>atob\<close> rejects, or
  a text that \<open>atob\<close> decodes to the given bytes (none, for a text of white
  space only).
\<close>

datatype inline_data = NoData | BadBase64 | Bytes "8 word list"

text \<open>
  An inbound \<open>LiveServerMessage\<close>, reduced to the four fields the handler reads.
  The two transcription texts are the empty string when missing.
\<close>

record server_message =
  audioData :: inline_data
  interrupted :: bool
  outputTranscription :: string
  inputTranscription :: string

text \<open>What \<open>sendRealtimeInput\<close> was given: an audio chunk (the Int16 samples) or a text.\<close>

datatype payload = Media "16 word list" | Text string

record segment =
  seg_start :: real
  seg_duration :: real
  seg_data :: "real list"

definition seg_end :: "segment \<Rightarrow> real" where
  "seg_end g = seg_start g + seg_duration g"

record state =
  isConnected :: bool
  isAITalking :: bool
  isUserTalking :: bool
  messages :: "Message list"
  error :: "string option"
  sessionRef :: "nat option"
  isSessionActiveRef :: bool
  isConnectingRef :: bool
  audioContextRef :: "nat option"
  streamRef :: "nat option"
  nextStartTimeRef :: real
  workletNodeRef :: "nat option"
  userTalkingTimeoutRef :: "nat option"
  attached :: "nat set"
  timers :: "(nat \<times> real) list"
  timerCount :: nat
  contextCount :: nat
  nodeCount :: nat
  sent :: "(nat \<times> payload) list"
  opened :: "nat list"
  closedSessions :: "nat list"
  closedContexts :: "nat list"
  stoppedStreams :: "nat list"
  disconnectedNodes :: "nat list"
  scheduled :: "segment list"

definition init :: state where
  "init = \<lparr> isConnected = False, isAITalking = False, isUserTalking = False,
     messages = [], error = None, sessionRef = None, isSessionActiveRef = False,
     isConnectingRef = False, audioContextRef = None, streamRef = None,
     nextStartTimeRef = 0, workletNodeRef = None, userTalkingTimeoutRef = None,
     attached = {}, timers = [], timerCount = 1, contextCount = 0, nodeCount = 0,
     sent = [], opened = [], closedSessions = [], closedContexts = [],
     stoppedStreams = [], disconnectedNodes = [], scheduled = [] \<rparr>"

section \<open>Teardown and connection\<close>

text \<open>\<open>stopAudio\<close>, lines 36 to 54.\<close>

definition stopAudio :: "state \<Rightarrow> state" where
  "stopAudio s =
    (let s1 = s\<lparr>isSessionActiveRef := False\<rparr>;
         s2 = (case workletNodeRef s1 of
                 None \<Rightarrow> s1
               | Some n \<Rightarrow> s1\<lparr>attached := attached s1 - {n},
                              disconnectedNodes := disconnectedNodes s1 @ [n],
                              workletNodeRef := None\<rparr>);
         s3 = (case audioContextRef s2 of
                 None \<Rightarrow> s2
               | Some c \<Rightarrow> s2\<lparr>closedContexts := closedContexts s2 @ [c],
                              audioContextRef := None\<rparr>);
         s4 = (case streamRef s3 of
                 None \<Rightarrow> s3
               | Some m \<Rightarrow> s3\<lparr>stoppedStreams := stoppedStreams s3 @ [m],
                              streamRef := None\<rparr>)
     in s4\<lparr>isAITalking := False, isUserTalking := False, nextStartTimeRef := 0\<rparr>)"

text \<open>The \<open>catch\<close> of \<open>connect\<close>, lines 240 to 246: an awaited step was rejected.\<close>

definition connect_catch :: "state \<Rightarrow> state" where
  "connect_catch s =
     stopAudio (s\<lparr>error := Some ''Could not access microphone or connect to API.'',
                  isConnectingRef := False, isSessionActiveRef := False\<rparr>)"

text \<open>
  \<open>connect\<close> from its entry to the first \<open>await\<close>, lines 57 to 83: the guard, the
  two flags, the cleared error and the new audio context.
\<close>

definition connect :: "state \<Rightarrow> state" where
  "connect s =
     (if isConnectingRef s \<or> isConnected s then s
      else s\<lparr>isConnectingRef := True, isSessionActiveRef := True, error := None,
             audioContextRef := Some (contextCount s),
             contextCount := Suc (contextCount s)\<rparr>)"

text \<open>
  \<open>connect\<close> resumed when \<open>getUserMedia\<close> has delivered the stream, lines 86 to 95,
  up to the call of \<open>ai.live.connect\<close>. Reading \<open>audioContextRef.current\<close> after a
  teardown has cleared it raises, which lands in the \<open>catch\<close>.
\<close>

definition connect_media :: "state \<Rightarrow> nat \<Rightarrow> state" where
  "connect_media s stream =
     (let s1 = s\<lparr>streamRef := Some stream\<rparr> in
      case audioContextRef s1 of
        None \<Rightarrow> connect_catch s1
      | Some c \<Rightarrow> s1\<lparr>workletNodeRef := Some (nodeCount s1),
                     nodeCount := Suc (nodeCount s1)\<rparr>)"

text \<open>
  \<open>connect\<close> resumed when the session promise has resolved, lines 229 to 239.
  \<open>opened\<close> lists the sessions the remote service has handed over.
\<close>

definition connect_session :: "state \<Rightarrow> nat \<Rightarrow> state" where
  "connect_session s session =
     (let s0 = s\<lparr>opened := opened s @ [session]\<rparr> in
      if \<not> isSessionActiveRef s0
      then s0\<lparr>closedSessions := closedSessions s0 @ [session], isConnectingRef := False\<rparr>
      else s0\<lparr>sessionRef := Some session, isConnectingRef := False\<rparr>)"

text \<open>
  The \<open>onopen\<close> callback, lines 98 to 148. Its closure holds the worklet node that
  its own \<open>connect\<close> created; the handler goes on that node's port.
\<close>

definition onopen :: "state \<Rightarrow> nat \<Rightarrow> state" where
  "onopen s workletNode =
     s\<lparr>isConnected := True, isSessionActiveRef := True, isConnectingRef := False,
       error := None, attached := insert workletNode (attached s)\<rparr>"

text \<open>\<open>onclose\<close> and \<open>onerror\<close>, lines 203 to 216.\<close>

definition onclose :: "state \<Rightarrow> state" where
  "onclose s =
     stopAudio (s\<lparr>isConnected := False, isSessionActiveRef := False,
                  isConnectingRef := False\<rparr>)"

definition onerror :: "state \<Rightarrow> state" where
  "onerror s =
     stopAudio (s\<lparr>error := Some ''Connection error. Please try again.'',
                  isConnected := False, isSessionActiveRef := False,
                  isConnectingRef := False\<rparr>)"

text \<open>\<open>disconnect\<close>, lines 249 to 268.\<close>

definition disconnect :: "state \<Rightarrow> state" where
  "disconnect s =
     (let s1 = s\<lparr>isSessionActiveRef := False, isConnectingRef := False\<rparr>;
          s2 = (case workletNodeRef s1 of
                  None \<Rightarrow> s1
                | Some n \<Rightarrow> s1\<lparr>attached := attached s1 - {n}\<rparr>);
          s3 = (case sessionRef s2 of
                  None \<Rightarrow> s2
                | Some x \<Rightarrow> s2\<lparr>closedSessions := closedSessions s2 @ [x],
                               sessionRef := None\<rparr>)
      in (stopAudio s3)\<lparr>isConnected := False\<rparr>)"

text \<open>
  \<open>sendTextMessage\<close>, lines 270 to 281. The flag \<open>ok\<close> says whether
  \<open>sendRealtimeInput\<close> returns; when it raises, the \<open>catch\<close> only logs.
\<close>

definition sendTextMessage :: "state \<Rightarrow> string \<Rightarrow> bool \<Rightarrow> state" where
  "sendTextMessage s txt ok =
     (case sessionRef s of
        None \<Rightarrow> s
      | Some session \<Rightarrow>
          if isConnected s \<and> isSessionActiveRef s
          then (if ok
                then s\<lparr>sent := sent s @ [(session, Text txt)],
                       messages := messages s @ [\<lparr>msg_role = RoleUser, msg_text = txt\<rparr>]\<rparr>
                else s)
          else s)"

section \<open>Capture: talk detection, PCM conversion, transmission\<close>

text \<open>
  Lines 114 to 118. For the empty frame JavaScript computes \<open>0/0\<close>, a NaN that is
  not above the threshold; here the quotient is 0, which is not above it either.
\<close>

definition rms :: "real list \<Rightarrow> real" where
  "rms inputData = sqrt (sum_list (map (\<lambda>x. x * x) inputData) / real (length inputData))"

text \<open>Storing a number in an \<open>Int16Array\<close>: truncate towards zero, keep 16 bits.\<close>

definition js_trunc :: "real \<Rightarrow> int" where
  "js_trunc r = (if 0 \<le> r then \<lfloor>r\<rfloor> else \<lceil>r\<rceil>)"

definition to_int16 :: "real \<Rightarrow> 16 word" where
  "to_int16 r = word_of_int (js_trunc r)"

text \<open>
  Line 127: \<open>Math.max(-1, Math.min(1, x)) * 0x7FFF\<close>, stored in the \<open>Int16Array\<close>.
  A captured sample is a 32-bit float, so its product with 32767 is exact in
  double precision: the real product below is the number the code stores.
\<close>

definition pcm_sample :: "real \<Rightarrow> 16 word" where
  "pcm_sample x = to_int16 (max (- 1) (min 1 x) * 32767)"

text \<open>\<open>clearTimeout\<close> and \<open>setTimeout\<close> on the list of pending timers.\<close>

definition clearTimeout :: "nat \<Rightarrow> (nat \<times> real) list \<Rightarrow> (nat \<times> real) list" where
  "clearTimeout i ts = filter (\<lambda>p. fst p \<noteq> i) ts"

text \<open>Lines 119 to 123, at the time \<open>now\<close> (in milliseconds) of the timer clock.\<close>

definition detect_talking :: "state \<Rightarrow> real list \<Rightarrow> real \<Rightarrow> state" where
  "detect_talking s inputData now =
     (if 0.01 < rms inputData
      then (let s1 = s\<lparr>isUserTalking := True\<rparr>;
                s2 = (case userTalkingTimeoutRef s1 of
                        None \<Rightarrow> s1
                      | Some i \<Rightarrow> s1\<lparr>timers := clearTimeout i (timers s1)\<rparr>)
            in s2\<lparr>timers := timers s2 @ [(timerCount s2, now + 500)],
                  userTalkingTimeoutRef := Some (timerCount s2),
                  timerCount := Suc (timerCount s2)\<rparr>)
      else s)"

text \<open>
  The capture handler on the worklet port, lines 104 to 147. \<open>ok\<close> says whether
  \<open>sendRealtimeInput\<close> returns. The chunk is recorded as its Int16 samples; its
  base64 text is not modelled.
\<close>

definition port_onmessage :: "state \<Rightarrow> real list \<Rightarrow> real \<Rightarrow> bool \<Rightarrow> state" where
  "port_onmessage s inputData now ok =
     (case sessionRef s of
        None \<Rightarrow> s
      | Some session \<Rightarrow>
          if \<not> isSessionActiveRef s then s
          else (let s1 = detect_talking s inputData now;
                    pcmData = map pcm_sample inputData
                in if isSessionActiveRef s1
                   then (if ok
                         then s1\<lparr>sent := sent s1 @ [(session, Media pcmData)]\<rparr>
                         else (let s2 = s1\<lparr>isSessionActiveRef := False\<rparr> in
                               case workletNodeRef s2 of
                                 None \<Rightarrow> s2
                               | Some n \<Rightarrow> s2\<lparr>attached := attached s2 - {n}\<rparr>))
                   else s1))"

text \<open>
  A timer of the platform runs its callback (line 122) once, and not before its
  deadline; a cleared timer never runs.
\<close>

definition timeout :: "state \<Rightarrow> nat \<Rightarrow> real \<Rightarrow> state" where
  "timeout s i now =
     (if \<exists>d \<in> set (map snd (filter (\<lambda>p. fst p = i) (timers s))). d \<le> now
      then s\<lparr>timers := clearTimeout i (timers s), isUserTalking := False\<rparr>
      else s)"

section \<open>Playback\<close>

text \<open>
  An exception that leaves a callback is a value: \<open>Inl s\<close> is the state \<open>s\<close> in
  which the callback raised, \<open>Inr s\<close> the state in which it goes on.
\<close>

text \<open>
  Line 161: the bytes read as 16-bit integers, low byte first (the byte order of
  the platforms the hook runs on).
\<close>

fun int16_le :: "8 word list \<Rightarrow> 16 word list" where
  "int16_le (lo # hi # bytes) = word_cat hi lo # int16_le bytes"
| "int16_le bytes = []"

text \<open>
  Lines 162 to 183: the buffer at 24 kHz, its start on the output clock and the
  new end of the timeline. \<open>currentTime\<close> is the clock of the audio context.
  \<open>createBuffer\<close> raises when asked for a buffer of length 0.
\<close>

definition schedule :: "state \<Rightarrow> 16 word list \<Rightarrow> real \<Rightarrow> state + state" where
  "schedule s pcmData currentTime =
     (let float32Data = map (\<lambda>w. real_of_int (sint w) / 32768) pcmData in
      case audioContextRef s of
        None \<Rightarrow> Inr s
      | Some c \<Rightarrow>
          if float32Data = [] then Inl s
          else (let duration = real (length float32Data) / 24000;
                    startTime = max currentTime (nextStartTimeRef s)
                in Inr (s\<lparr>scheduled := scheduled s @
                          [\<lparr>seg_start = startTime, seg_duration = duration,
                            seg_data = float32Data\<rparr>],
                        nextStartTimeRef := startTime + duration\<rparr>)))"

text \<open>
  Lines 155 to 184, the audio branch of the handler. \<open>atob\<close> raises on a text
  that is not base64, and \<open>new Int16Array(bytes.buffer)\<close> raises on an odd
  number of bytes; \<open>isAITalking\<close> has been set by then.
\<close>

definition play_audio :: "state \<Rightarrow> inline_data \<Rightarrow> real \<Rightarrow> state + state" where
  "play_audio s d currentTime =
     (case d of
        NoData \<Rightarrow> Inr s
      | BadBase64 \<Rightarrow> Inl (s\<lparr>isAITalking := True\<rparr>)
      | Bytes bytes \<Rightarrow>
          (let s1 = s\<lparr>isAITalking := True\<rparr> in
           if odd (length bytes) then Inl s1
           else schedule s1 (int16_le bytes) currentTime))"

text \<open>
  The session's \<open>onmessage\<close> callback, lines 149 to 202. When the audio branch
  raises, the callback ends there: the interruption and the transcriptions of
  that message are not handled.
\<close>

definition onmessage :: "state \<Rightarrow> server_message \<Rightarrow> real \<Rightarrow> state" where
  "onmessage s m currentTime =
     (if \<not> isSessionActiveRef s then s
      else (case (if audioData m \<noteq> NoData \<and> isSessionActiveRef s
                  then play_audio s (audioData m) currentTime
                  else Inr s) of
              Inl s' \<Rightarrow> s'
            | Inr s1 \<Rightarrow>
               (let s2 = (if interrupted m
                          then s1\<lparr>nextStartTimeRef := 0, isAITalking := False\<rparr>
                          else s1);
                    s3 = (if outputTranscription m \<noteq> []
                          then s2\<lparr>messages := messages s2 @
                                 [\<lparr>msg_role = RoleModel,
                                   msg_text = outputTranscription m\<rparr>]\<rparr>
                          else s2)
                in if inputTranscription m \<noteq> []
                   then s3\<lparr>messages := messages s3 @
                          [\<lparr>msg_role = RoleUser, msg_text = inputTranscription m\<rparr>]\<rparr>
                   else s3)))"

text \<open>The \<open>onended\<close> callback of a playback source, lines 178 to 182.\<close>

definition source_onended :: "state \<Rightarrow> real \<Rightarrow> state" where
  "source_onended s currentTime =
     (if audioContextRef s \<noteq> None \<and> nextStartTimeRef s - 0.1 \<le> currentTime
      then s\<lparr>isAITalking := False\<rparr>
      else s)"

section \<open>The event loop\<close>

text \<open>
  One event is one callback of the source run to completion. A capture frame
  reaches the handler only on a node whose port carries it. \<open>MediaReady\<close> is
  the resumption of \<open>connect\<close> with the stream of \<open>getUserMedia\<close> (the earlier
  \<open>await\<close> of \<open>addModule\<close> changes nothing when it resolves), \<open>SessionReady\<close> the
  resumption with the session, and \<open>ConnectFailed\<close> the rejection of any of the
  awaited steps.
\<close>

datatype event =
    Connect
  | MediaReady nat
  | ConnectFailed
  | OnOpen nat
  | SessionReady nat
  | OnMessage server_message real
  | OnClose
  | OnError
  | SourceEnded real
  | Frame nat "real list" real bool
  | Timeout nat real
  | Disconnect
  | SendText string bool

fun step :: "state \<Rightarrow> event \<Rightarrow> state" where
  "step s Connect = connect s"
| "step s (MediaReady stream) = connect_media s stream"
| "step s ConnectFailed = connect_catch s"
| "step s (OnOpen workletNode) = onopen s workletNode"
| "step s (SessionReady session) = connect_session s session"
| "step s (OnMessage m currentTime) = onmessage s m currentTime"
| "step s OnClose = onclose s"
| "step s OnError = onerror s"
| "step s (SourceEnded currentTime) = source_onended s currentTime"
| "step s (Frame n inputData now ok) =
     (if n \<in> attached s then port_onmessage s inputData now ok else s)"
| "step s (Timeout i now) = timeout s i now"
| "step s Disconnect = disconnect s"
| "step s (SendText txt ok) = sendTextMessage s txt ok"

fun run :: "state \<Rightarrow> event list \<Rightarrow> state" where
  "run s [] = s"
| "run s (e # es) = run (step s e) es"

text \<open>A run of inbound messages, each with the output clock at its arrival.\<close>

fun feed :: "state \<Rightarrow> (server_message \<times> real) list \<Rightarrow> state" where
  "feed s [] = s"
| "feed s (p # ps) = feed (onmessage s (fst p) (snd p)) ps"

section \<open>Notions used by the properties\<close>

text \<open>The segments that a run from \<open>s\<close> to \<open>s'\<close> has added to the output timeline.\<close>

definition new_segments :: "state \<Rightarrow> state \<Rightarrow> segment list" where
  "new_segments s s' = drop (length (scheduled s)) (scheduled s')"

text \<open>
  A payload that the audio branch turns into a buffer: an even, positive number
  of bytes.
\<close>

definition decodable :: "inline_data \<Rightarrow> bool" where
  "decodable d = (case d of Bytes bytes \<Rightarrow> even (length bytes) \<and> bytes \<noteq> [] | _ \<Rightarrow> False)"

text \<open>The samples of a payload, none when it has no bytes.\<close>

definition samples :: "inline_data \<Rightarrow> 16 word list" where
  "samples d = (case d of Bytes bytes \<Rightarrow> int16_le bytes | _ \<Rightarrow> [])"

text \<open>
  A payload on which the audio branch raises in state \<open>s\<close>: a text that is not
  base64, an odd number of bytes, or no bytes at all while an audio context is
  held.
\<close>

definition audio_throws :: "state \<Rightarrow> inline_data \<Rightarrow> bool" where
  "audio_throws s d =
     (case d of
        NoData \<Rightarrow> False
      | BadBase64 \<Rightarrow> True
      | Bytes bytes \<Rightarrow> odd (length bytes) \<or> (audioContextRef s \<noteq> None \<and> bytes = []))"

text \<open>An inbound message that carries playable audio and no interruption signal.\<close>

definition audio_chunk :: "server_message \<Rightarrow> bool" where
  "audio_chunk m = (decodable (audioData m) \<and> \<not> interrupted m)"

text \<open>
  Every pending timer is the one \<open>userTalkingTimeoutRef\<close> holds. The hook creates
  timers at line 122 only, after clearing the one in the ref, so this holds in
  every state the event loop reaches (\<open>timers_tracked_init\<close> below).
\<close>

definition timers_tracked :: "state \<Rightarrow> bool" where
  "timers_tracked s = (\<forall>p \<in> set (timers s). userTalkingTimeoutRef s = Some (fst p))"

text \<open>
  The events that leave a decay window running until the deadline \<open>d\<close>: no capture
  frame above the threshold, no timer callback before \<open>d\<close>, and none of the
  callbacks that run \<open>stopAudio\<close>.
\<close>

fun quiet :: "real \<Rightarrow> event \<Rightarrow> bool" where
  "quiet d (Frame n inputData now ok) = (\<not> 0.01 < rms inputData)"
| "quiet d (Timeout i now) = (now < d)"
| "quiet d (MediaReady stream) = False"
| "quiet d ConnectFailed = False"
| "quiet d OnClose = False"
| "quiet d OnError = False"
| "quiet d Disconnect = False"
| "quiet d e = True"

text \<open>The two callbacks that set \<open>isSessionActiveRef\<close>: \<open>connect\<close> and \<open>onopen\<close>.\<close>

fun reconnecting :: "event \<Rightarrow> bool" where
  "reconnecting Connect = True"
| "reconnecting (OnOpen n) = True"
| "reconnecting e = False"

text \<open>
  A session that was opened without incident, and three inbound messages: three
  samples of audio, a bare interruption signal, and an interruption signal
  whose audio payload is not base64.
\<close>

definition open_state :: state where
  "open_state = run init [Connect, MediaReady 1, OnOpen 0, SessionReady 1]"

definition chunk :: server_message where
  "chunk = \<lparr>audioData = Bytes [1, 0, 2, 0, 3, 0], interrupted = False,
            outputTranscription = [], inputTranscription = []\<rparr>"

definition interruption :: server_message where
  "interruption = \<lparr>audioData = NoData, interrupted = True, outputTranscription = [],
                   inputTranscription = []\<rparr>"

definition garbled_interruption :: server_message where
  "garbled_interruption = \<lparr>audioData = BadBase64, interrupted = True,
                           outputTranscription = [], inputTranscription = []\<rparr>"

section \<open>Auxiliary facts\<close>

lemmas teardown_defs = stopAudio_def disconnect_def onclose_def onerror_def connect_catch_def

lemmas handler_defs = connect_def connect_media_def connect_session_def onopen_def
  sendTextMessage_def detect_talking_def port_onmessage_def timeout_def schedule_def
  play_audio_def onmessage_def source_onended_def clearTimeout_def

lemma open_state_eq:
  "open_state = init\<lparr>isConnected := True, sessionRef := Some 1, isSessionActiveRef := True,
     audioContextRef := Some 0, streamRef := Some 1, workletNodeRef := Some 0,
     attached := {0}, contextCount := 1, nodeCount := 1, opened := [1]\<rparr>"
  by (simp add: open_state_def init_def handler_defs)

text \<open>The threshold test without the square root.\<close>

lemma loud_iff:
  "(0.01 < rms xs) = (1 / 10000 < sum_list (map (\<lambda>x. x * x) xs) / real (length xs))"
proof -
  have "sqrt (1 / 10000) = 1 / 100"
    by (rule real_sqrt_unique) (simp_all add: power2_eq_square)
  then have e: "(0.01::real) = sqrt (1 / 10000)" by simp
  show ?thesis unfolding rms_def by (subst e) (rule real_sqrt_less_iff)
qed

lemma loud_iff_scaled:
  "(1 < rms xs * 100) = (1 / 10000 < sum_list (map (\<lambda>x. x * x) xs) / real (length xs))"
  using loud_iff[of xs] by simp

lemmas eval_defs = open_state_eq init_def chunk_def interruption_def
  garbled_interruption_def handler_defs
  teardown_defs Let_def loud_iff_scaled

subsection \<open>Teardown\<close>

lemma stopAudio_sent:
  "sent (stopAudio s) = sent s" "\<not> isSessionActiveRef (stopAudio s)"
  by (simp_all add: stopAudio_def Let_def split: option.splits)

lemma stopAudio_timers:
  "timers (stopAudio s) = timers s"
  "userTalkingTimeoutRef (stopAudio s) = userTalkingTimeoutRef s"
  by (simp_all add: stopAudio_def Let_def split: option.splits)

subsection \<open>What an inbound message leaves alone\<close>

lemma play_audio_frame:
  assumes "play_audio s d t = Inl s' \<or> play_audio s d t = Inr s'"
  shows "isUserTalking s' = isUserTalking s" "timers s' = timers s"
    "userTalkingTimeoutRef s' = userTalkingTimeoutRef s" "sent s' = sent s"
    "isSessionActiveRef s' = isSessionActiveRef s"
  using assms
  by (auto simp: play_audio_def schedule_def Let_def
      split: inline_data.splits option.splits if_splits)

lemma onmessage_frame':
  "isUserTalking (onmessage s m t) = isUserTalking s
   \<and> timers (onmessage s m t) = timers s
   \<and> userTalkingTimeoutRef (onmessage s m t) = userTalkingTimeoutRef s
   \<and> sent (onmessage s m t) = sent s
   \<and> isSessionActiveRef (onmessage s m t) = isSessionActiveRef s"
proof (cases "play_audio s (audioData m) t")
  case (Inl s')
  then show ?thesis
    using play_audio_frame[of s "audioData m" t s']
    by (simp add: onmessage_def Let_def)
next
  case (Inr s')
  then show ?thesis
    using play_audio_frame[of s "audioData m" t s']
    by (simp add: onmessage_def Let_def)
qed

lemma onmessage_frame:
  "isUserTalking (onmessage s m t) = isUserTalking s"
  "timers (onmessage s m t) = timers s"
  "userTalkingTimeoutRef (onmessage s m t) = userTalkingTimeoutRef s"
  "sent (onmessage s m t) = sent s"
  "isSessionActiveRef (onmessage s m t) = isSessionActiveRef s"
  using onmessage_frame'[of s m t] by simp_all

lemmas callback_defs = connect_def connect_media_def connect_session_def onopen_def
  sendTextMessage_def detect_talking_def port_onmessage_def timeout_def
  source_onended_def clearTimeout_def

subsection \<open>An inactive session stays silent\<close>

lemma inactive_step:
  assumes "\<not> isSessionActiveRef s" "\<not> reconnecting e"
  shows "\<not> isSessionActiveRef (step s e) \<and> sent (step s e) = sent s"
proof (cases e)
  case (MediaReady x)
  then show ?thesis using assms
    by (simp add: connect_media_def connect_catch_def stopAudio_sent Let_def
        split: option.splits)
next
  case ConnectFailed
  then show ?thesis by (simp add: connect_catch_def stopAudio_sent)
next
  case OnClose
  then show ?thesis by (simp add: onclose_def stopAudio_sent)
next
  case OnError
  then show ?thesis by (simp add: onerror_def stopAudio_sent)
next
  case Disconnect
  then show ?thesis
    by (simp add: disconnect_def stopAudio_sent Let_def split: option.splits)
next
  case (OnMessage m t)
  then show ?thesis using assms by (simp add: onmessage_frame)
qed (use assms in \<open>simp_all add: callback_defs Let_def split: option.splits\<close>)

lemma inactive_run:
  "\<not> isSessionActiveRef s \<Longrightarrow> \<forall>e \<in> set es. \<not> reconnecting e \<Longrightarrow>
     \<not> isSessionActiveRef (run s es) \<and> sent (run s es) = sent s"
proof (induction es arbitrary: s)
  case Nil
  then show ?case by simp
next
  case (Cons e es)
  have st: "\<not> isSessionActiveRef (step s e) \<and> sent (step s e) = sent s"
    using Cons.prems by (intro inactive_step) simp_all
  show ?case using Cons.IH[of "step s e"] st Cons.prems by simp
qed

lemma detect_frame:
  "sessionRef (detect_talking s xs now) = sessionRef s"
  "isSessionActiveRef (detect_talking s xs now) = isSessionActiveRef s"
  "workletNodeRef (detect_talking s xs now) = workletNodeRef s"
  "attached (detect_talking s xs now) = attached s"
  "sent (detect_talking s xs now) = sent s"
  "error (detect_talking s xs now) = error s"
  "isAITalking (detect_talking s xs now) = isAITalking s"
  "isConnected (detect_talking s xs now) = isConnected s"
  "isUserTalking (detect_talking s xs now) = (0.01 < rms xs \<or> isUserTalking s)"
  by (simp_all add: detect_talking_def Let_def split: option.splits)

subsection \<open>Timers\<close>

lemma timers_tracked_step: "timers_tracked s \<Longrightarrow> timers_tracked (step s e)"
proof (cases e)
  case (MediaReady x)
  then show "timers_tracked s \<Longrightarrow> ?thesis"
    by (simp add: timers_tracked_def connect_media_def connect_catch_def stopAudio_timers
        Let_def split: option.splits)
next
  case ConnectFailed
  then show "timers_tracked s \<Longrightarrow> ?thesis"
    by (simp add: timers_tracked_def connect_catch_def stopAudio_timers)
next
  case OnClose
  then show "timers_tracked s \<Longrightarrow> ?thesis"
    by (simp add: timers_tracked_def onclose_def stopAudio_timers)
next
  case OnError
  then show "timers_tracked s \<Longrightarrow> ?thesis"
    by (simp add: timers_tracked_def onerror_def stopAudio_timers)
next
  case Disconnect
  then show "timers_tracked s \<Longrightarrow> ?thesis"
    by (simp add: timers_tracked_def disconnect_def stopAudio_timers Let_def
        split: option.splits)
next
  case (Frame n xs now ok)
  then show "timers_tracked s \<Longrightarrow> ?thesis"
    by (auto simp: timers_tracked_def port_onmessage_def detect_talking_def
        clearTimeout_def Let_def split: option.splits)
next
  case (Timeout i now)
  then show "timers_tracked s \<Longrightarrow> ?thesis"
    by (auto simp: timers_tracked_def timeout_def clearTimeout_def)
next
  case (OnMessage m t)
  then show "timers_tracked s \<Longrightarrow> ?thesis"
    by (simp add: timers_tracked_def onmessage_frame)
qed (simp_all add: timers_tracked_def callback_defs Let_def split: option.splits)

lemma timers_tracked_run: "timers_tracked s \<Longrightarrow> timers_tracked (run s es)"
  by (induction es arbitrary: s) (simp_all add: timers_tracked_step)

lemma timers_tracked_init: "timers_tracked (run init es)"
  by (rule timers_tracked_run) (simp add: timers_tracked_def init_def)

lemma detect_loud:
  assumes "timers_tracked s" "0.01 < rms xs"
  shows "isUserTalking (detect_talking s xs now)"
    "timers (detect_talking s xs now) = [(timerCount s, now + 500)]"
    "userTalkingTimeoutRef (detect_talking s xs now) = Some (timerCount s)"
proof -
  have "clearTimeout i (timers s) = []" if "userTalkingTimeoutRef s = Some i" for i
    using assms(1) that by (auto simp: timers_tracked_def clearTimeout_def filter_empty_conv)
  moreover have "timers s = []" if "userTalkingTimeoutRef s = None"
    using assms(1) that by (cases "timers s") (auto simp: timers_tracked_def)
  ultimately show "isUserTalking (detect_talking s xs now)"
    "timers (detect_talking s xs now) = [(timerCount s, now + 500)]"
    "userTalkingTimeoutRef (detect_talking s xs now) = Some (timerCount s)"
    using assms(2) by (simp_all add: detect_talking_def Let_def split: option.splits)
qed

lemma port_loud:
  assumes "timers_tracked s" "sessionRef s = Some x" "isSessionActiveRef s" "0.01 < rms xs"
  shows "isUserTalking (port_onmessage s xs now ok)"
    "timers (port_onmessage s xs now ok) = [(timerCount s, now + 500)]"
    "userTalkingTimeoutRef (port_onmessage s xs now ok) = Some (timerCount s)"
  using detect_loud[OF assms(1) assms(4), of now] assms(2,3)
  by (simp_all add: port_onmessage_def Let_def split: option.splits)

lemma quiet_step:
  assumes "isUserTalking s" "timers s = [(i, d)]" "quiet d e"
  shows "isUserTalking (step s e) \<and> timers (step s e) = [(i, d)]"
proof (cases e)
  case (OnMessage m t)
  then show ?thesis using assms by (simp add: onmessage_frame)
qed (use assms in \<open>auto simp: callback_defs Let_def split: option.splits\<close>)

lemma quiet_run:
  "isUserTalking s \<Longrightarrow> timers s = [(i, d)] \<Longrightarrow> \<forall>e \<in> set es. quiet d e \<Longrightarrow>
     isUserTalking (run s es) \<and> timers (run s es) = [(i, d)]"
proof (induction es arbitrary: s)
  case Nil
  then show ?case by simp
next
  case (Cons e es)
  have "isUserTalking (step s e) \<and> timers (step s e) = [(i, d)]"
    using Cons.prems by (intro quiet_step) simp_all
  then show ?case using Cons.IH[of "step s e"] Cons.prems by simp
qed

subsection \<open>PCM conversion\<close>






subsection \<open>The output timeline\<close>

lemma feed_snoc: "feed s (ms @ [p]) = onmessage (feed s ms) (fst p) (snd p)"
  by (induction ms arbitrary: s) simp_all

lemma int16_le_Nil: "even (length bytes) \<Longrightarrow> (int16_le bytes = []) = (bytes = [])"
  by (induction bytes rule: int16_le.induct) simp_all

lemma play_audio_decodable:
  assumes "audioContextRef s = Some c" "decodable d"
  shows "play_audio s d t =
     Inr (s\<lparr>isAITalking := True,
            scheduled := scheduled s @
              [\<lparr>seg_start = max t (nextStartTimeRef s),
                seg_duration = real (length (samples d)) / 24000,
                seg_data = map (\<lambda>w. real_of_int (sint w) / 32768) (samples d)\<rparr>],
            nextStartTimeRef := max t (nextStartTimeRef s)
              + real (length (samples d)) / 24000\<rparr>)"
proof (cases d)
  case (Bytes bytes)
  then have "even (length bytes)" "int16_le bytes \<noteq> []"
    using assms(2) by (simp_all add: decodable_def int16_le_Nil)
  then show ?thesis
    using assms(1) Bytes by (simp add: play_audio_def schedule_def samples_def Let_def)
qed (use assms(2) in \<open>simp_all add: decodable_def\<close>)

lemma play_audio_throws:
  "(\<exists>s'. play_audio s d t = Inl s') = audio_throws s d"
  "play_audio s d t = Inl s' \<Longrightarrow> s' = s\<lparr>isAITalking := True\<rparr>"
  by (cases d; cases "audioContextRef s";
      auto simp: play_audio_def schedule_def audio_throws_def int16_le_Nil Let_def
        split: if_splits)+

lemma onmessage_throws:
  assumes "isSessionActiveRef s" "audio_throws s (audioData m)"
  shows "onmessage s m t = s\<lparr>isAITalking := True\<rparr>"
proof -
  obtain s' where i: "play_audio s (audioData m) t = Inl s'"
    using assms(2) play_audio_throws(1)[of s "audioData m" t] by blast
  then have "s' = s\<lparr>isAITalking := True\<rparr>" by (rule play_audio_throws(2))
  moreover have "audioData m \<noteq> NoData"
    using assms(2) by (auto simp: audio_throws_def)
  ultimately show ?thesis using assms(1) i by (simp add: onmessage_def)
qed

lemma onmessage_audio:
  assumes "isSessionActiveRef s" "audioContextRef s \<noteq> None" "decodable (audioData m)"
  shows "scheduled (onmessage s m t) = scheduled s @
           [\<lparr>seg_start = max t (nextStartTimeRef s),
             seg_duration = real (length (samples (audioData m))) / 24000,
             seg_data = map (\<lambda>w. real_of_int (sint w) / 32768) (samples (audioData m))\<rparr>]"
    and "isSessionActiveRef (onmessage s m t)"
    and "audioContextRef (onmessage s m t) = audioContextRef s"
proof -
  obtain c where c: "audioContextRef s = Some c" using assms(2) by blast
  have n: "audioData m \<noteq> NoData" using assms(3) by (auto simp: decodable_def)
  note pa = play_audio_decodable[OF c assms(3), of t]
  show "scheduled (onmessage s m t) = scheduled s @
           [\<lparr>seg_start = max t (nextStartTimeRef s),
             seg_duration = real (length (samples (audioData m))) / 24000,
             seg_data = map (\<lambda>w. real_of_int (sint w) / 32768) (samples (audioData m))\<rparr>]"
    and "isSessionActiveRef (onmessage s m t)"
    and "audioContextRef (onmessage s m t) = audioContextRef s"
    using assms(1) n by (simp_all add: onmessage_def pa Let_def)
qed

lemma onmessage_chunk:
  assumes "isSessionActiveRef s" "audioContextRef s \<noteq> None" "audio_chunk m"
  shows "nextStartTimeRef (onmessage s m t) =
           max t (nextStartTimeRef s) + real (length (samples (audioData m))) / 24000"
proof -
  obtain c where c: "audioContextRef s = Some c" using assms(2) by blast
  have d: "decodable (audioData m)" "\<not> interrupted m"
    using assms(3) by (simp_all add: audio_chunk_def)
  then have n: "audioData m \<noteq> NoData" by (auto simp: decodable_def)
  show ?thesis
    using assms(1) n d(2) by (simp add: onmessage_def play_audio_decodable[OF c d(1)] Let_def)
qed

lemma feed_chunks:
  assumes "isSessionActiveRef s" "audioContextRef s \<noteq> None"
  shows "(\<forall>p \<in> set ms. audio_chunk (fst p)) \<Longrightarrow>
     isSessionActiveRef (feed s ms) \<and> audioContextRef (feed s ms) \<noteq> None \<and>
     length (scheduled (feed s ms)) = length (scheduled s) + length ms \<and>
     take (length (scheduled s)) (scheduled (feed s ms)) = scheduled s \<and>
     (\<forall>i < length ms.
        seg_start (new_segments s (feed s ms) ! i) =
          max (snd (ms ! i)) (nextStartTimeRef (feed s (take i ms))) \<and>
        nextStartTimeRef (feed s (take (Suc i) ms)) = seg_end (new_segments s (feed s ms) ! i) \<and>
        0 \<le> seg_duration (new_segments s (feed s ms) ! i))"
proof (induction ms rule: rev_induct)
  case Nil
  then show ?case using assms by simp
next
  case (snoc p ms)
  let ?f = "feed s ms"
  let ?g = "onmessage ?f (fst p) (snd p)"
  have ih: "isSessionActiveRef ?f" "audioContextRef ?f \<noteq> None"
    "length (scheduled ?f) = length (scheduled s) + length ms"
    "take (length (scheduled s)) (scheduled ?f) = scheduled s"
    and ihi: "\<And>i. i < length ms \<Longrightarrow>
        seg_start (new_segments s ?f ! i) =
          max (snd (ms ! i)) (nextStartTimeRef (feed s (take i ms))) \<and>
        nextStartTimeRef (feed s (take (Suc i) ms)) = seg_end (new_segments s ?f ! i) \<and>
        0 \<le> seg_duration (new_segments s ?f ! i)"
    using snoc by simp_all
  have c: "audio_chunk (fst p)" using snoc.prems by simp
  then have d: "decodable (audioData (fst p))" by (simp add: audio_chunk_def)
  note om = onmessage_audio[OF ih(1) ih(2) d, of "snd p"]
  note nx = onmessage_chunk[OF ih(1) ih(2) c, of "snd p"]
  have g: "feed s (ms @ [p]) = ?g" by (rule feed_snoc)
  have ns: "new_segments s ?g = new_segments s ?f @
           [\<lparr>seg_start = max (snd p) (nextStartTimeRef ?f),
             seg_duration = real (length (samples (audioData (fst p)))) / 24000,
             seg_data =
               map (\<lambda>w. real_of_int (sint w) / 32768) (samples (audioData (fst p)))\<rparr>]"
    unfolding new_segments_def om(1) using ih(3) by simp
  have ln: "length (new_segments s ?f) = length ms"
    unfolding new_segments_def using ih(3) by simp
  have idx: "seg_start (new_segments s ?g ! i) =
          max (snd ((ms @ [p]) ! i)) (nextStartTimeRef (feed s (take i (ms @ [p])))) \<and>
        nextStartTimeRef (feed s (take (Suc i) (ms @ [p]))) = seg_end (new_segments s ?g ! i) \<and>
        0 \<le> seg_duration (new_segments s ?g ! i)" if "i < length (ms @ [p])" for i
  proof (cases "i < length ms")
    case True
    then show ?thesis using ihi[OF True] ln by (simp add: ns nth_append)
  next
    case False
    then have "i = length ms" using that by simp
    then show ?thesis using ln nx g by (simp add: ns nth_append seg_end_def)
  qed
  show ?case unfolding g using om ih idx[unfolded g] by simp
qed

text \<open>Segments of non-negative length that follow one another are ordered.\<close>

lemma chain_ordered:
  fixes b e :: "nat \<Rightarrow> real"
  assumes "\<And>k. k < n \<Longrightarrow> b k \<le> e k" "\<And>k. Suc k < n \<Longrightarrow> e k \<le> b (Suc k)"
  shows "i < j \<Longrightarrow> j < n \<Longrightarrow> e i \<le> b j"
proof (induction j)
  case 0
  then show ?case by simp
next
  case (Suc j)
  show ?case
  proof (cases "i = j")
    case True
    then show ?thesis using assms(2)[of j] Suc.prems by simp
  next
    case False
    then have "e i \<le> b j" using Suc by simp
    also have "b j \<le> e j" using assms(1)[of j] Suc.prems by simp
    also have "e j \<le> b (Suc j)" using assms(2)[of j] Suc.prems by simp
    finally show ?thesis .
  qed
qed

subsection \<open>The guards of \<open>connect\<close>\<close>

lemma connect_guard: "isConnectingRef s \<or> isConnected s \<Longrightarrow> connect s = s"
  by (simp add: connect_def)

lemma race_check:
  "\<not> isSessionActiveRef s \<Longrightarrow>
     closedSessions (connect_session s x) = closedSessions s @ [x]
     \<and> sessionRef (connect_session s x) = sessionRef s
     \<and> \<not> isConnectingRef (connect_session s x)"
  by (simp add: connect_session_def Let_def)

section \<open>The properties\<close>

subsection \<open>C1: the playback timeline\<close>

text \<open>
  C1. Let an active session with an audio context receive \<open>N\<close> inbound messages
  \<open>ms\<close>, each carrying audio and none an interruption signal, the \<open>i\<close>-th with the
  output clock at \<open>snd (ms ! i)\<close>. Then \<open>N\<close> segments are scheduled; segment \<open>i\<close>
  starts at the maximum of the clock and of \<open>nextStartTimeRef\<close> as it stands when
  the message arrives, and \<open>nextStartTimeRef\<close> is its start plus its duration as
  soon as the message is handled; a segment whose message arrives no later than
  the end of its predecessor starts exactly at that end; and every segment ends
  before any later one starts.
\<close>

theorem playback_timeline:
  assumes "isSessionActiveRef s" "audioContextRef s \<noteq> None"
    and "\<forall>p \<in> set ms. audio_chunk (fst p)"
  shows "let segs = new_segments s (feed s ms) in
     length segs = length ms
     \<and> (\<forall>i < length ms.
          seg_start (segs ! i) = max (snd (ms ! i)) (nextStartTimeRef (feed s (take i ms)))
          \<and> nextStartTimeRef (feed s (take (Suc i) ms))
              = seg_start (segs ! i) + seg_duration (segs ! i))
     \<and> (\<forall>i. Suc i < length ms \<and> snd (ms ! Suc i) \<le> seg_end (segs ! i) \<longrightarrow>
          seg_start (segs ! Suc i) = seg_end (segs ! i))
     \<and> (\<forall>i j. i < j \<and> j < length ms \<longrightarrow> seg_end (segs ! i) \<le> seg_start (segs ! j))"
proof -
  let ?segs = "new_segments s (feed s ms)"
  note fc = feed_chunks[OF assms(1) assms(2) assms(3)]
  have len: "length ?segs = length ms"
    using fc by (simp add: new_segments_def)
  have rule: "seg_start (?segs ! i) = max (snd (ms ! i)) (nextStartTimeRef (feed s (take i ms)))"
    and upd: "nextStartTimeRef (feed s (take (Suc i) ms)) = seg_end (?segs ! i)"
    and dur: "0 \<le> seg_duration (?segs ! i)" if "i < length ms" for i
    using fc that by simp_all
  have nxt: "seg_start (?segs ! Suc i) = max (snd (ms ! Suc i)) (seg_end (?segs ! i))"
    if "Suc i < length ms" for i
    using rule[OF that] upd[of i] that by simp
  have gapless: "seg_start (?segs ! Suc i) = seg_end (?segs ! i)"
    if "Suc i < length ms" "snd (ms ! Suc i) \<le> seg_end (?segs ! i)" for i
    using nxt[OF that(1)] that(2) by simp
  have ordered: "seg_end (?segs ! i) \<le> seg_start (?segs ! j)" if "i < j" "j < length ms" for i j
  proof (rule chain_ordered[where n = "length ms" and b = "\<lambda>k. seg_start (?segs ! k)"
        and e = "\<lambda>k. seg_end (?segs ! k)"])
    show "seg_start (?segs ! k) \<le> seg_end (?segs ! k)" if "k < length ms" for k
      using dur[OF that] by (simp add: seg_end_def)
    show "seg_end (?segs ! k) \<le> seg_start (?segs ! Suc k)" if "Suc k < length ms" for k
      using nxt[OF that] by simp
  qed (use that in simp_all)
  have c2: "\<forall>i < length ms.
          seg_start (?segs ! i) = max (snd (ms ! i)) (nextStartTimeRef (feed s (take i ms)))
          \<and> nextStartTimeRef (feed s (take (Suc i) ms))
              = seg_start (?segs ! i) + seg_duration (?segs ! i)"
    using rule upd unfolding seg_end_def by blast
  have c3: "\<forall>i. Suc i < length ms \<and> snd (ms ! Suc i) \<le> seg_end (?segs ! i) \<longrightarrow>
          seg_start (?segs ! Suc i) = seg_end (?segs ! i)"
    using gapless by blast
  have c4: "\<forall>i j. i < j \<and> j < length ms \<longrightarrow> seg_end (?segs ! i) \<le> seg_start (?segs ! j)"
    using ordered by blast
  show ?thesis
    unfolding Let_def using len c2 c3 c4 by (intro conjI)
qed

text \<open>
  Two chunks of three samples, both arriving at clock 0 on a freshly opened
  session: the second starts at 1/8000, where the first ends.
\<close>

theorem playback_timeline_witness:
  "isSessionActiveRef open_state \<and> audioContextRef open_state \<noteq> None
   \<and> audio_chunk chunk
   \<and> map seg_start (new_segments open_state (feed open_state [(chunk, 0), (chunk, 0)]))
       = [0, 1 / 8000]
   \<and> seg_start (new_segments open_state (feed open_state [(chunk, 0), (chunk, 0)]) ! 1)
       = seg_end (new_segments open_state (feed open_state [(chunk, 0), (chunk, 0)]) ! 0)"
proof -
  have a: "isSessionActiveRef open_state" "audioContextRef open_state \<noteq> None"
    by (simp_all add: open_state_eq init_def)
  have c: "audio_chunk chunk" by (simp add: audio_chunk_def decodable_def chunk_def)
  then have cs: "\<forall>p \<in> set [(chunk, 0::real), (chunk, 0)]. audio_chunk (fst p)" by simp
  have v: "map seg_start (new_segments open_state (feed open_state [(chunk, 0), (chunk, 0)]))
       = [0, 1 / 8000]"
    by (simp add: open_state_eq init_def chunk_def onmessage_def play_audio_def
        schedule_def new_segments_def Let_def)
  have e: "seg_end (new_segments open_state (feed open_state [(chunk, 0), (chunk, 0)]) ! 0)
       = 1 / 8000"
    by (simp add: open_state_eq init_def chunk_def onmessage_def play_audio_def
        schedule_def new_segments_def Let_def seg_end_def)
  have "seg_start (new_segments open_state (feed open_state [(chunk, 0), (chunk, 0)]) ! Suc 0)
       = seg_end (new_segments open_state (feed open_state [(chunk, 0), (chunk, 0)]) ! 0)"
    using playback_timeline[OF a cs] e by (simp add: Let_def)
  then show ?thesis using a c v by simp
qed

subsection \<open>C2: interruption\<close>

text \<open>
  C2, as amended. An inbound message that arrives while \<open>isSessionActiveRef\<close> is
  false is ignored: the state is unchanged. When a message with the interrupted
  flag is handled while \<open>isSessionActiveRef\<close> is true and its audio branch does
  not raise, \<open>nextStartTimeRef\<close> is 0 and \<open>isAITalking\<close> is false when the handler
  returns; and if an audio context is held, the segment of the next message
  with playable audio, arriving with the output clock at \<open>t2 \<ge> 0\<close>, starts at
  \<open>t2\<close>.
\<close>

theorem interruption_resets:
  "(\<not> isSessionActiveRef s \<longrightarrow> onmessage s m t = s)
   \<and> (isSessionActiveRef s \<and> \<not> audio_throws s (audioData m) \<and> interrupted m \<longrightarrow>
        nextStartTimeRef (onmessage s m t) = 0
        \<and> \<not> isAITalking (onmessage s m t)
        \<and> (\<forall>m2 t2. audioContextRef s \<noteq> None \<and> decodable (audioData m2) \<and> 0 \<le> t2 \<longrightarrow>
             map seg_start
               (new_segments (onmessage s m t) (onmessage (onmessage s m t) m2 t2)) = [t2]))"
proof -
  let ?s' = "onmessage s m t"
  have ign: "\<not> isSessionActiveRef s \<longrightarrow> ?s' = s" by (simp add: onmessage_def)
  have res: "nextStartTimeRef ?s' = 0 \<and> \<not> isAITalking ?s'
      \<and> (\<forall>m2 t2. audioContextRef s \<noteq> None \<and> decodable (audioData m2) \<and> 0 \<le> t2 \<longrightarrow>
             map seg_start (new_segments ?s' (onmessage ?s' m2 t2)) = [t2])"
    if a: "isSessionActiveRef s" and nt: "\<not> audio_throws s (audioData m)"
      and i: "interrupted m"
  proof -
    obtain s1 where p: "play_audio s (audioData m) t = Inr s1"
      using nt play_audio_throws(1)[of s "audioData m" t]
      by (cases "play_audio s (audioData m) t") auto
    have k: "isSessionActiveRef s1" "audioContextRef s1 = audioContextRef s"
      using p a
      by (auto simp: play_audio_def schedule_def Let_def
          split: inline_data.splits option.splits if_splits)
    have r: "nextStartTimeRef ?s' = 0" "\<not> isAITalking ?s'" "isSessionActiveRef ?s'"
      "audioContextRef ?s' = audioContextRef s"
      using a i p k by (simp_all add: onmessage_def Let_def)
    have n: "map seg_start (new_segments ?s' (onmessage ?s' m2 t2)) = [t2]"
      if "audioContextRef s \<noteq> None" "decodable (audioData m2)" "0 \<le> t2" for m2 t2
    proof -
      have c: "audioContextRef ?s' \<noteq> None" using that(1) r(4) by simp
      show ?thesis
        unfolding new_segments_def onmessage_audio(1)[OF r(3) c that(2)]
        using r(1) that(3) by simp
    qed
    show ?thesis using r(1,2) n by blast
  qed
  show ?thesis using ign res by blast
qed

theorem interruption_resets_witness:
  "\<not> isSessionActiveRef init \<and> onmessage init interruption 1 = init
   \<and> isSessionActiveRef (onmessage open_state chunk 0)
   \<and> \<not> audio_throws (onmessage open_state chunk 0) (audioData interruption)
   \<and> interrupted interruption
   \<and> nextStartTimeRef (onmessage (onmessage open_state chunk 0) interruption 1) = 0
   \<and> \<not> isAITalking (onmessage (onmessage open_state chunk 0) interruption 1)
   \<and> map seg_start (new_segments (onmessage (onmessage open_state chunk 0) interruption 1)
        (onmessage (onmessage (onmessage open_state chunk 0) interruption 1) chunk 2)) = [2]"
proof -
  have z: "\<not> isSessionActiveRef init" by (simp add: init_def)
  have a: "isSessionActiveRef (onmessage open_state chunk 0)"
    by (simp add: open_state_eq init_def chunk_def onmessage_def play_audio_def
        schedule_def Let_def)
  have b: "interrupted interruption"
    "\<not> audio_throws (onmessage open_state chunk 0) (audioData interruption)"
    by (simp_all add: interruption_def audio_throws_def)
  have c: "audioContextRef (onmessage open_state chunk 0) \<noteq> None
      \<and> decodable (audioData chunk) \<and> (0::real) \<le> 2"
    by (simp add: open_state_eq init_def chunk_def onmessage_def play_audio_def
        schedule_def decodable_def Let_def)
  show ?thesis
    using interruption_resets[of init interruption 1]
      interruption_resets[of "onmessage open_state chunk 0" interruption 1] z a b c
    by blast
qed

text \<open>
  The claim as stated has no condition on the session or on the message. After
  a failed send the flag is false (the session is still shown as connected),
  and the guard at line 150 discards the interruption signal: the timeline
  keeps its end at 1/8000 and \<open>isAITalking\<close> stays true. And on an active
  session, an interruption signal whose audio payload is not base64 is lost
  when \<open>atob\<close> raises at line 156: the timeline keeps its end and \<open>isAITalking\<close>
  is true.
\<close>

theorem interruption_inactive_counterexample:
  "interrupted interruption
   \<and> \<not> isSessionActiveRef (run open_state [OnMessage chunk 0, Frame 0 [0] 0 False])
   \<and> nextStartTimeRef (run open_state [OnMessage chunk 0, Frame 0 [0] 0 False,
        OnMessage interruption 1]) = 1 / 8000
   \<and> isAITalking (run open_state [OnMessage chunk 0, Frame 0 [0] 0 False,
        OnMessage interruption 1])
   \<and> interrupted garbled_interruption
   \<and> isSessionActiveRef (run open_state [OnMessage chunk 0])
   \<and> nextStartTimeRef (run open_state [OnMessage chunk 0, OnMessage garbled_interruption 1])
        = 1 / 8000
   \<and> isAITalking (run open_state [OnMessage chunk 0, OnMessage garbled_interruption 1])"
  by (simp add: eval_defs)

subsection \<open>C3: a failed transmission\<close>

text \<open>
  C3, as amended. When the transmission of an audio chunk raises on a session
  that holds a handle and is active, the handler sets \<open>isSessionActiveRef\<close> to
  false and takes the capture handler off the worklet node in
  \<open>workletNodeRef\<close>; nothing is transmitted, then or in any later run of events
  without a call of \<open>connect\<close> and without an \<open>onopen\<close> callback. The failure
  itself leaves \<open>error\<close>, \<open>isAITalking\<close>, \<open>isConnected\<close> and the session handle as
  they were, and \<open>isUserTalking\<close> as the talk detection of that frame set it.
\<close>

theorem send_failure:
  assumes "sessionRef s = Some x" "isSessionActiveRef s"
  shows "let s' = port_onmessage s inputData now False in
     \<not> isSessionActiveRef s'
     \<and> attached s' = attached s - set_option (workletNodeRef s)
     \<and> sent s' = sent s
     \<and> error s' = error s
     \<and> isAITalking s' = isAITalking s
     \<and> isUserTalking s' = (0.01 < rms inputData \<or> isUserTalking s)
     \<and> isConnected s' = isConnected s
     \<and> sessionRef s' = sessionRef s
     \<and> (\<forall>es. (\<forall>e \<in> set es. \<not> reconnecting e) \<longrightarrow> sent (run s' es) = sent s)"
proof -
  let ?s' = "port_onmessage s inputData now False"
  have f: "\<not> isSessionActiveRef ?s'"
    "attached ?s' = attached s - set_option (workletNodeRef s)"
    "sent ?s' = sent s" "error ?s' = error s" "isAITalking ?s' = isAITalking s"
    "isUserTalking ?s' = (0.01 < rms inputData \<or> isUserTalking s)"
    "isConnected ?s' = isConnected s" "sessionRef ?s' = sessionRef s"
    using assms
    by (simp_all add: port_onmessage_def detect_frame Let_def split: option.splits)
  have "\<forall>es. (\<forall>e \<in> set es. \<not> reconnecting e) \<longrightarrow> sent (run ?s' es) = sent s"
    using inactive_run[OF f(1)] f(3) by simp
  then show ?thesis using f by (simp add: Let_def)
qed

theorem send_failure_witness:
  "sessionRef open_state = Some 1 \<and> isSessionActiveRef open_state
   \<and> \<not> isSessionActiveRef (port_onmessage open_state [0] 0 False)
   \<and> attached (port_onmessage open_state [0] 0 False) = {}
   \<and> sent (run (port_onmessage open_state [0] 0 False)
        [Frame 0 [0] 20 True, SendText ''hello'' True, Disconnect]) = []"
proof -
  have a: "sessionRef open_state = Some 1" "isSessionActiveRef open_state"
    by (simp_all add: open_state_eq init_def)
  have q: "\<forall>e \<in> set [Frame 0 [0] 20 True, SendText ''hello'' True, Disconnect].
      \<not> reconnecting e"
    by simp
  have v: "attached open_state - set_option (workletNodeRef open_state) = {}"
    "sent open_state = []"
    by (simp_all add: open_state_eq init_def)
  note t = send_failure[OF a, of "[0]" 0, unfolded Let_def]
  have "\<not> isSessionActiveRef (port_onmessage open_state [0] 0 False)"
    and "attached (port_onmessage open_state [0] 0 False) = {}"
    using t v(1) by simp_all
  moreover have "sent (run (port_onmessage open_state [0] 0 False)
        [Frame 0 [0] 20 True, SendText ''hello'' True, Disconnect]) = []"
    using t q v(2) by metis
  ultimately show ?thesis using a by blast
qed

text \<open>
  On an open session where the assistant is talking, a loud frame whose
  transmission raises leaves both talk flags true and publishes no error.
\<close>

theorem send_failure_counterexample:
  "isConnected (run open_state [OnMessage chunk 0])
   \<and> isSessionActiveRef (run open_state [OnMessage chunk 0])
   \<and> isAITalking (run open_state [OnMessage chunk 0, Frame 0 [1 / 2] 0 False])
   \<and> isUserTalking (run open_state [OnMessage chunk 0, Frame 0 [1 / 2] 0 False])
   \<and> error (run open_state [OnMessage chunk 0, Frame 0 [1 / 2] 0 False]) = None"
  by (simp add: eval_defs)

subsection \<open>C4: PCM conversion\<close>



subsection \<open>C5: talk activity\<close>

text \<open>
  C5, as amended. Let the capture handler process, at time \<open>now\<close>, a frame whose
  root mean square is above 0.01, on a session that holds a handle and is
  active, in a state where every pending timer is the one in
  \<open>userTalkingTimeoutRef\<close>. Then \<open>isUserTalking\<close> is true when the handler
  returns, and the one pending timer is a new one due at \<open>now + 500\<close>. Through
  every later run of events with no frame above the threshold, no timer
  callback before \<open>now + 500\<close> and no teardown, \<open>isUserTalking\<close> stays true; the
  callback of that timer, which the platform runs at \<open>now + 500\<close> or later, sets
  it to false.
\<close>

theorem talk_decay:
  assumes "timers_tracked s" "sessionRef s = Some x" "isSessionActiveRef s"
    and "0.01 < rms inputData"
  shows "let s1 = port_onmessage s inputData now ok in
     isUserTalking s1
     \<and> timers s1 = [(timerCount s, now + 500)]
     \<and> userTalkingTimeoutRef s1 = Some (timerCount s)
     \<and> (\<forall>es. (\<forall>e \<in> set es. quiet (now + 500) e) \<longrightarrow> isUserTalking (run s1 es))
     \<and> (\<forall>es t. (\<forall>e \<in> set es. quiet (now + 500) e) \<and> now + 500 \<le> t \<longrightarrow>
           \<not> isUserTalking (step (run s1 es) (Timeout (timerCount s) t)))"
proof -
  let ?s1 = "port_onmessage s inputData now ok"
  note p = port_loud[OF assms, of now ok]
  have q: "isUserTalking (run ?s1 es) \<and> timers (run ?s1 es) = [(timerCount s, now + 500)]"
    if "\<forall>e \<in> set es. quiet (now + 500) e" for es
    using quiet_run[OF p(1) p(2) that] .
  have r: "\<not> isUserTalking (step (run ?s1 es) (Timeout (timerCount s) t))"
    if "\<forall>e \<in> set es. quiet (now + 500) e" "now + 500 \<le> t" for es t
    using q[OF that(1)] that(2) by (simp add: timeout_def)
  show ?thesis using p q r by (simp add: Let_def)
qed

theorem talk_decay_witness:
  "timers_tracked open_state \<and> sessionRef open_state = Some 1
   \<and> isSessionActiveRef open_state \<and> 0.01 < rms [1 / 2]
   \<and> isUserTalking (port_onmessage open_state [1 / 2] 0 True)
   \<and> isUserTalking (run (port_onmessage open_state [1 / 2] 0 True)
        [Frame 0 [0] 100 True, Timeout 1 499, OnMessage chunk 0])
   \<and> \<not> isUserTalking (step (run (port_onmessage open_state [1 / 2] 0 True)
        [Frame 0 [0] 100 True, Timeout 1 499, OnMessage chunk 0]) (Timeout 1 500))"
proof -
  have a: "timers_tracked open_state" "sessionRef open_state = Some 1"
    "isSessionActiveRef open_state"
    by (simp_all add: open_state_eq init_def timers_tracked_def)
  have l: "0.01 < rms [1 / 2]" by (simp add: loud_iff_scaled)
  have q: "\<forall>e \<in> set [Frame 0 [0] 100 True, Timeout 1 499, OnMessage chunk 0].
      quiet (0 + 500) e"
    by (simp add: loud_iff_scaled)
  have c: "timerCount open_state = 1" "(0::real) + 500 \<le> 500"
    by (simp_all add: open_state_eq init_def)
  note t = talk_decay[OF a l, of 0 True, unfolded Let_def c(1)]
  have "isUserTalking (port_onmessage open_state [1 / 2] 0 True)"
    using t by blast
  moreover have "isUserTalking (run (port_onmessage open_state [1 / 2] 0 True)
        [Frame 0 [0] 100 True, Timeout 1 499, OnMessage chunk 0])"
    using t q by blast
  moreover have "\<not> isUserTalking (step (run (port_onmessage open_state [1 / 2] 0 True)
        [Frame 0 [0] 100 True, Timeout 1 499, OnMessage chunk 0]) (Timeout 1 500))"
    using t q c(2) by blast
  ultimately show ?thesis using a l by blast
qed

text \<open>
  The claim as stated fails in two ways. A \<open>disconnect\<close> right after a loud frame
  sets \<open>isUserTalking\<close> to false through \<open>stopAudio\<close>, long before 500 ms have
  passed. And a loud frame that reaches the handler while no session handle is
  stored (here between \<open>onopen\<close> and the resolution of the session promise) is
  dropped by the guard at line 107: \<open>isUserTalking\<close> stays false and no timer is
  started.
\<close>

theorem talk_decay_counterexample:
  "0.01 < rms [1 / 2]
   \<and> isUserTalking (run open_state [Frame 0 [1 / 2] 0 True])
   \<and> \<not> isUserTalking (run open_state [Frame 0 [1 / 2] 0 True, Disconnect])
   \<and> 0 \<in> attached (run init [Connect, MediaReady 1, OnOpen 0])
   \<and> \<not> isUserTalking (run init [Connect, MediaReady 1, OnOpen 0, Frame 0 [1 / 2] 0 True])
   \<and> timers (run init [Connect, MediaReady 1, OnOpen 0, Frame 0 [1 / 2] 0 True]) = []"
  by (simp add: eval_defs)

subsection \<open>C6: disconnect while the session is being opened\<close>

text \<open>
  C6 fails on the code. \<open>connect\<close> runs up to the call of \<open>ai.live.connect\<close>,
  \<open>disconnect\<close> is called while the session promise is pending, then the session
  opens: \<open>onopen\<close> runs and the promise resolves with session 7. \<open>onopen\<close> sets
  \<open>isSessionActiveRef\<close> back to true, so the check at line 232 does not fire:
  the hook shows itself connected, keeps the session handle, never closes the
  session, and a later text goes out on it. Were the promise to resolve before
  \<open>onopen\<close> runs, the session would be closed, and \<open>onopen\<close> would still show the
  hook connected.
\<close>

theorem pending_disconnect_leaves_session_open:
  "isConnected (run init [Connect, MediaReady 1, Disconnect, OnOpen 0, SessionReady 7])
   \<and> isSessionActiveRef
        (run init [Connect, MediaReady 1, Disconnect, OnOpen 0, SessionReady 7])
   \<and> sessionRef (run init [Connect, MediaReady 1, Disconnect, OnOpen 0, SessionReady 7])
        = Some 7
   \<and> closedSessions (run init [Connect, MediaReady 1, Disconnect, OnOpen 0, SessionReady 7])
        = []
   \<and> sent (run init [Connect, MediaReady 1, Disconnect, OnOpen 0, SessionReady 7,
        SendText ''hello'' True]) = [(7, Text ''hello'')]
   \<and> closedSessions (run init [Connect, MediaReady 1, Disconnect, SessionReady 7, OnOpen 0])
        = [7]
   \<and> isConnected (run init [Connect, MediaReady 1, Disconnect, SessionReady 7, OnOpen 0])"
  by (simp add: eval_defs)

subsection \<open>C7: one session at a time\<close>

text \<open>
  C7 fails on the code in its second half. The guard of \<open>connect\<close> holds
  (\<open>connect_guard\<close>), but \<open>disconnect\<close> clears \<open>isConnectingRef\<close> while the first
  attempt is still waiting for its session, so a second \<open>connect\<close> passes the
  guard and sets \<open>isSessionActiveRef\<close> again. Both attempts then complete:
  sessions 1 and 2 are handed over, \<open>close\<close> is called on neither, and the handle
  of session 1 is overwritten.
\<close>

theorem reconnect_leaves_two_sessions_open:
  "opened (run init [Connect, MediaReady 1, Disconnect, Connect, OnOpen 0, SessionReady 1,
      MediaReady 2, OnOpen 1, SessionReady 2]) = [1, 2]
   \<and> closedSessions (run init [Connect, MediaReady 1, Disconnect, Connect, OnOpen 0,
      SessionReady 1, MediaReady 2, OnOpen 1, SessionReady 2]) = []
   \<and> sessionRef (run init [Connect, MediaReady 1, Disconnect, Connect, OnOpen 0,
      SessionReady 1, MediaReady 2, OnOpen 1, SessionReady 2]) = Some 2"
  by (simp add: eval_defs)

subsection \<open>C8: disconnect\<close>

text \<open>
  C8. From every state, \<open>disconnect\<close> is one synchronous step after which
  \<open>isSessionActiveRef\<close>, \<open>isConnectingRef\<close> and \<open>isConnected\<close> are false; the capture
  handler is off the worklet node that \<open>workletNodeRef\<close> held; the session that
  \<open>sessionRef\<close> held, if any, has been closed and the handle cleared; the audio
  context is closed, the media stream stopped and their refs cleared;
  \<open>nextStartTimeRef\<close> is 0 and both talk flags are false. A second call changes
  nothing.
\<close>

theorem disconnect_teardown:
  "disconnect (disconnect s) = disconnect s
   \<and> \<not> isSessionActiveRef (disconnect s) \<and> \<not> isConnectingRef (disconnect s)
   \<and> \<not> isConnected (disconnect s) \<and> sessionRef (disconnect s) = None
   \<and> attached (disconnect s) = attached s - set_option (workletNodeRef s)
   \<and> closedSessions (disconnect s)
        = closedSessions s @ (case sessionRef s of None \<Rightarrow> [] | Some x \<Rightarrow> [x])
   \<and> workletNodeRef (disconnect s) = None
   \<and> audioContextRef (disconnect s) = None
   \<and> closedContexts (disconnect s)
        = closedContexts s @ (case audioContextRef s of None \<Rightarrow> [] | Some c \<Rightarrow> [c])
   \<and> streamRef (disconnect s) = None
   \<and> stoppedStreams (disconnect s)
        = stoppedStreams s @ (case streamRef s of None \<Rightarrow> [] | Some m \<Rightarrow> [m])
   \<and> nextStartTimeRef (disconnect s) = 0
   \<and> \<not> isAITalking (disconnect s) \<and> \<not> isUserTalking (disconnect s)"
  by (cases "workletNodeRef s"; cases "sessionRef s"; cases "audioContextRef s";
      cases "streamRef s")
     (simp_all add: teardown_defs)

subsection \<open>C9: remote close and remote error\<close>

text \<open>
  C9, as amended. \<open>onclose\<close> and \<open>onerror\<close> each leave the state that
  \<open>disconnect\<close> leaves, but for the session handle, which they keep, and the
  call of \<open>close\<close>, which they do not make: \<open>isSessionActiveRef\<close>,
  \<open>isConnectingRef\<close> and \<open>isConnected\<close> are false, the capture handler is
  detached, the audio context is closed, the stream stopped, the timeline back
  at 0 and the talk flags false. \<open>onerror\<close> differs from \<open>onclose\<close> in the
  published error only, and \<open>onclose\<close> leaves \<open>error\<close> as it was.
\<close>

theorem remote_teardown:
  "onclose s = (disconnect s)\<lparr>sessionRef := sessionRef s, closedSessions := closedSessions s\<rparr>
   \<and> onerror s = (onclose s)\<lparr>error := Some ''Connection error. Please try again.''\<rparr>
   \<and> error (onclose s) = error s
   \<and> error (onerror s) = Some ''Connection error. Please try again.''
   \<and> \<not> isSessionActiveRef (onclose s) \<and> \<not> isConnectingRef (onclose s)
   \<and> \<not> isConnected (onclose s)
   \<and> attached (onclose s) = attached s - set_option (workletNodeRef s)
   \<and> workletNodeRef (onclose s) = None \<and> audioContextRef (onclose s) = None
   \<and> streamRef (onclose s) = None
   \<and> closedContexts (onclose s)
        = closedContexts s @ (case audioContextRef s of None \<Rightarrow> [] | Some c \<Rightarrow> [c])
   \<and> stoppedStreams (onclose s)
        = stoppedStreams s @ (case streamRef s of None \<Rightarrow> [] | Some m \<Rightarrow> [m])
   \<and> nextStartTimeRef (onclose s) = 0
   \<and> \<not> isAITalking (onclose s) \<and> \<not> isUserTalking (onclose s)"
  by (cases "workletNodeRef s"; cases "sessionRef s"; cases "audioContextRef s";
      cases "streamRef s")
     (simp_all add: teardown_defs)

text \<open>
  The teardown is not the one of \<open>disconnect\<close>. On an open session,
  \<open>disconnect\<close> closes session 1 and clears the handle; \<open>onclose\<close> and
  \<open>onerror\<close> do neither (lines 203 to 216 never touch \<open>sessionRef\<close>). The
  handle that is left can be used: when the next \<open>connect\<close> has reached
  \<open>onopen\<close> and its own session is not yet stored, a text goes out on
  session 1 after \<open>onclose\<close>, and nowhere after \<open>disconnect\<close>.
\<close>

theorem remote_teardown_counterexample:
  "sessionRef (disconnect open_state) = None
   \<and> closedSessions (disconnect open_state) = [1]
   \<and> sessionRef (onclose open_state) = Some 1
   \<and> closedSessions (onclose open_state) = []
   \<and> sessionRef (onerror open_state) = Some 1
   \<and> closedSessions (onerror open_state) = []
   \<and> onclose open_state \<noteq> disconnect open_state
   \<and> onerror open_state \<noteq> disconnect open_state
   \<and> sent (run open_state [OnClose, Connect, MediaReady 2, OnOpen 1,
        SendText ''hello'' True]) = [(1, Text ''hello'')]
   \<and> sent (run open_state [Disconnect, Connect, MediaReady 2, OnOpen 1,
        SendText ''hello'' True]) = []"
proof -
  have v: "sessionRef (disconnect open_state) = None"
    "closedSessions (disconnect open_state) = [1]"
    "sessionRef (onclose open_state) = Some 1"
    "closedSessions (onclose open_state) = []"
    "sessionRef (onerror open_state) = Some 1"
    "closedSessions (onerror open_state) = []"
    by (simp_all add: eval_defs)
  have n: "onclose open_state \<noteq> disconnect open_state"
    "onerror open_state \<noteq> disconnect open_state"
    using v by auto
  have r: "sent (run open_state [OnClose, Connect, MediaReady 2, OnOpen 1,
        SendText ''hello'' True]) = [(1, Text ''hello'')]"
    "sent (run open_state [Disconnect, Connect, MediaReady 2, OnOpen 1,
        SendText ''hello'' True]) = []"
    by (simp_all add: eval_defs)
  show ?thesis using v n r by blast
qed

subsection \<open>C10: sending text\<close>

text \<open>
  C10. When no session handle is stored, or the hook is not connected, or
  \<open>isSessionActiveRef\<close> is false, \<open>sendTextMessage\<close> returns the state as it was:
  nothing is transmitted and the message log is unchanged. When the
  transmission raises, the state is unchanged as well, so the message is not
  appended. On an open active session whose transmission returns, the text is
  transmitted and appended to the log as a user message.
\<close>

theorem sendText_guarded:
  "(sessionRef s = None \<or> \<not> isConnected s \<or> \<not> isSessionActiveRef s \<longrightarrow>
      sendTextMessage s txt ok = s)
   \<and> sendTextMessage s txt False = s
   \<and> (sessionRef s = Some x \<and> isConnected s \<and> isSessionActiveRef s \<longrightarrow>
        sent (sendTextMessage s txt True) = sent s @ [(x, Text txt)]
        \<and> messages (sendTextMessage s txt True)
            = messages s @ [\<lparr>msg_role = RoleUser, msg_text = txt\<rparr>])"
  by (auto simp: sendTextMessage_def split: option.splits)

theorem sendText_guarded_witness:
  "sessionRef init = None \<and> sendTextMessage init ''hello'' True = init
   \<and> sessionRef open_state = Some 1 \<and> isConnected open_state
   \<and> isSessionActiveRef open_state
   \<and> sent (sendTextMessage open_state ''hello'' True) = [(1, Text ''hello'')]
   \<and> messages (sendTextMessage open_state ''hello'' True)
       = [\<lparr>msg_role = RoleUser, msg_text = ''hello''\<rparr>]
   \<and> sendTextMessage open_state ''hello'' False = open_state"
proof -
  have a: "sessionRef init = None" by (simp add: init_def)
  have b: "sessionRef open_state = Some 1 \<and> isConnected open_state
      \<and> isSessionActiveRef open_state"
    by (simp add: open_state_eq init_def)
  have c: "sent open_state = []" "messages open_state = []"
    by (simp_all add: open_state_eq init_def)
  show ?thesis
    using sendText_guarded[of init "''hello''" True 0]
      sendText_guarded[of open_state "''hello''" True 1] a b c
    by simp
qed

end
